theory Spec2Isabelle
  imports Main "HOL-Library.Sublist"
begin

section \<open>JavaScript strings\<close>

text \<open>
  A JavaScript string is modelled as a \<^typ>\<open>string\<close>: the model covers the strings
  whose code units are below 256 (ASCII and Latin-1). The source never looks at a code unit
  above that range, except through \<open>toLowerCase\<close> and the whitespace classes.
\<close>

definition isSpace :: "char \<Rightarrow> bool" where
  \<comment> \<open>\<open>\s\<close> and the characters removed by \<open>trim\<close>: TAB, LF, VT, FF, CR, SP, NBSP.\<close>
  "isSpace c = (let n = (of_char c :: nat) in (9 \<le> n \<and> n \<le> 13) \<or> n = 32 \<or> n = 160)"

definition isWord :: "char \<Rightarrow> bool" where
  \<comment> \<open>\<open>\w\<close> is \<open>[A-Za-z0-9_]\<close>.\<close>
  "isWord c = (let n = (of_char c :: nat) in
     (48 \<le> n \<and> n \<le> 57) \<or> (65 \<le> n \<and> n \<le> 90) \<or> n = 95 \<or> (97 \<le> n \<and> n \<le> 122))"

definition toLowerChar :: "char \<Rightarrow> char" where
  "toLowerChar c = (let n = (of_char c :: nat) in
     if (65 \<le> n \<and> n \<le> 90) \<or> (192 \<le> n \<and> n \<le> 214) \<or> (216 \<le> n \<and> n \<le> 222)
     then char_of (n + 32) else c)"

definition toLowerCase :: "string \<Rightarrow> string" where
  "toLowerCase s = map toLowerChar s"

definition trim :: "string \<Rightarrow> string" where
  "trim s = rev (dropWhile isSpace (rev (dropWhile isSpace s)))"

definition includes_str :: "string \<Rightarrow> string \<Rightarrow> bool" where
  \<comment> \<open>\<open>s.includes(t)\<close>\<close>
  "includes_str s t = sublist t s"

definition startsWith :: "string \<Rightarrow> string \<Rightarrow> bool" where
  "startsWith s t = prefix t s"

definition endsWith :: "string \<Rightarrow> string \<Rightarrow> bool" where
  "endsWith s t = suffix t s"

fun split_on :: "char \<Rightarrow> string \<Rightarrow> string list" where
  \<comment> \<open>\<open>s.split(sep)\<close> for a separator of one character; never an empty array.\<close>
  "split_on sep [] = [[]]"
| "split_on sep (c # cs) =
     (if c = sep then [] # split_on sep cs
      else (case split_on sep cs of [] \<Rightarrow> [[c]] | l # ls \<Rightarrow> (c # l) # ls))"

fun join :: "string \<Rightarrow> string list \<Rightarrow> string" where
  \<comment> \<open>\<open>xs.join(sep)\<close>\<close>
  "join sep [] = []"
| "join sep [x] = x"
| "join sep (x # y # ys) = x @ sep @ join sep (y # ys)"

fun replace :: "string \<Rightarrow> string \<Rightarrow> string \<Rightarrow> string" where
  \<comment> \<open>\<open>s.replace(pat, rep)\<close> with a string pattern: only the first occurrence is replaced.
      The replacement used by the source is empty, so it has no \<open>$\<close> patterns.\<close>
  "replace [] pat rep = (if pat = [] then rep else [])"
| "replace (c # cs) pat rep =
     (if prefix pat (c # cs) then rep @ drop (length pat) (c # cs)
      else c # replace cs pat rep)"

section \<open>Regular expressions\<close>

text \<open>
  The regular expressions of the source are values of \<open>rx\<close>, run by a backtracking
  matcher that returns every way to match in the order in which a backtracking engine
  tries them: the first element is the match JavaScript reports. A matcher state is the
  position in the input, the rest of the input, and the capture groups set so far.
\<close>

type_synonym caps = "(nat \<times> string) list"
type_synonym mstate = "nat \<times> string \<times> caps"

datatype rx =
    Chr char
  | Cls "char \<Rightarrow> bool"
  | Str string
  | Bol
  | Eol
  | Seq rx rx
  | Alt rx rx
  | Opt rx
  | Star rx
  | Grp nat rx

function rmatch :: "rx \<Rightarrow> mstate \<Rightarrow> mstate list" where
  "rmatch (Chr c) (p, s, k) =
     (case s of [] \<Rightarrow> [] | x # xs \<Rightarrow> if x = c then [(Suc p, xs, k)] else [])"
| "rmatch (Cls f) (p, s, k) =
     (case s of [] \<Rightarrow> [] | x # xs \<Rightarrow> if f x then [(Suc p, xs, k)] else [])"
| "rmatch (Str w) (p, s, k) =
     (if prefix w s then [(p + length w, drop (length w) s, k)] else [])"
| "rmatch Bol (p, s, k) = (if p = 0 then [(p, s, k)] else [])"
| "rmatch Eol (p, s, k) = (if s = [] then [(p, s, k)] else [])"
| "rmatch (Seq a b) st = concat (map (rmatch b) (rmatch a st))"
| "rmatch (Alt a b) st = rmatch a st @ rmatch b st"
| "rmatch (Opt a) st = rmatch a st @ [st]"
| "rmatch (Star a) (p, s, k) =
     concat (map (rmatch (Star a))
       (filter (\<lambda>st'. length (fst (snd st')) < length s) (rmatch a (p, s, k))))
     @ [(p, s, k)]"
| "rmatch (Grp n a) (p, s, k) =
     map (\<lambda>(p', s', k'). (p', s', (n, take (p' - p) s) # k')) (rmatch a (p, s, k))"
  by pat_completeness auto
termination
  by (relation "measures [\<lambda>(r, st). size r, \<lambda>(r, st). length (fst (snd st))]") auto

declare rmatch.simps(9) [simp del]

definition Plus :: "rx \<Rightarrow> rx" where
  "Plus a = Seq a (Star a)"

fun exec_from :: "rx \<Rightarrow> nat \<Rightarrow> string \<Rightarrow> caps option" where
  \<comment> \<open>the leftmost start position with a match wins\<close>
  "exec_from re p s =
     (case rmatch re (p, s, []) of
        st # _ \<Rightarrow> Some (snd (snd st))
      | [] \<Rightarrow> (case s of [] \<Rightarrow> None | _ # t \<Rightarrow> exec_from re (Suc p) t))"

declare exec_from.simps [simp del]

definition exec :: "rx \<Rightarrow> string \<Rightarrow> caps option" where
  \<comment> \<open>\<open>s.match(re)\<close> for a regular expression without the \<open>g\<close> flag: \<open>None\<close> is
      \<open>null\<close>, and group \<open>i\<close> of the match is \<open>map_of m i\<close> (\<open>None\<close> is \<open>undefined\<close>).\<close>
  "exec re s = exec_from re 0 s"

definition test :: "rx \<Rightarrow> string \<Rightarrow> bool" where
  "test re s = (exec re s \<noteq> None)"

section \<open>Node's \<open>path\<close> module (POSIX)\<close>

definition basename :: "string \<Rightarrow> string" where
  \<comment> \<open>the last component of the path, trailing slashes ignored\<close>
  "basename p =
     rev (takeWhile (\<lambda>c. c \<noteq> CHR ''/'') (dropWhile (\<lambda>c. c = CHR ''/'') (rev p)))"

definition extname :: "string \<Rightarrow> string" where
  \<comment> \<open>from the last dot of the last component to its end; empty when there is no dot,
      when the only dot is the first character, or when the component is \<open>..\<close>\<close>
  "extname p =
     (let b = basename p; e = rev (takeWhile (\<lambda>c. c \<noteq> CHR ''.'') (rev b)) in
      if CHR ''.'' \<notin> set b \<or> length e + 1 = length b \<or> b = ''..'' then []
      else CHR ''.'' # e)"

section \<open>Types (packages/common/src/types/github.ts)\<close>

record GitHubRepositoryInfo =
  url :: string
  owner :: string
  name :: string
  branch :: "string option"

record GitHubFile =
  path :: string
  content :: string
  language :: "string option"
  size_bytes :: int

datatype ChunkType = FILE | CLASS | FUNCTION | SUMMARY

datatype UseCase = BUG_FIXING | CODE_GENERATION | EXPLANATION

record ChunkMetadata =
  repositoryInfo :: GitHubRepositoryInfo
  filePath :: string
  meta_language :: "string option"
  startLine :: "int option"
  endLine :: "int option"
  symbolName :: "string option"

record CodeChunk =
  chunk_id :: string
  chunk_content :: string
  chunk_type :: ChunkType
  useCases :: "UseCase list"
  metadata :: ChunkMetadata

fun ChunkType_value :: "ChunkType \<Rightarrow> string" where
  "ChunkType_value FILE = ''file''"
| "ChunkType_value CLASS = ''class''"
| "ChunkType_value FUNCTION = ''function''"
| "ChunkType_value SUMMARY = ''summary''"

section \<open>CodeChunker (packages/etl/src/code-chunker.ts)\<close>

subsection \<open>File filter\<close>

definition isNonPrintable :: "char \<Rightarrow> bool" where
  \<comment> \<open>\<open>[\x00-\x08\x0B\x0C\x0E-\x1F\x7F]\<close>\<close>
  "isNonPrintable c = (let n = (of_char c :: nat) in
     n \<le> 8 \<or> n = 11 \<or> n = 12 \<or> (14 \<le> n \<and> n \<le> 31) \<or> n = 127)"

definition isLikelyBinary :: "string \<Rightarrow> bool" where
  \<comment> \<open>\<open>content.match(/[...]/g)\<close> is the array of the characters of the class, or
      \<open>null\<close> when there is none. The source compares \<open>nonPrintable.length\<close> with
      the double \<open>content.length * 0.1\<close>; for every length below \<open>2^48\<close> that product is
      \<open>content.length / 10\<close> up to an error far below \<open>1/10\<close> and is exact at the
      multiples of ten, so the comparison is the integer one written here.\<close>
  "isLikelyBinary cont =
     (if CHR 0x00 \<in> set cont then True
      else (let nonPrintable = filter isNonPrintable cont in
            if nonPrintable \<noteq> [] \<and> length cont < 10 * length nonPrintable then True
            else False))"

definition skipPatterns :: "rx list" where
  "skipPatterns =
     [Str ''.git/'',
      Str ''node_modules/'',
      Seq (Str ''.DS_Store'') Eol,
      Seq (Str ''.env'') Eol,
      Seq (Str ''.log'') Eol,
      Seq (Str ''.lock'') Eol,
      Seq (Str ''package-lock.json'') Eol,
      Seq (Str ''yarn.lock'') Eol,
      Seq (Str ''pnpm-lock.yaml'') Eol]"

definition shouldSkipFile :: "GitHubFile \<Rightarrow> bool" where
  "shouldSkipFile file =
     (if trim (content file) = [] then True
      else if size_bytes file > 2 * 1024 * 1024 then True
      else if isLikelyBinary (content file) then True
      else if list_ex (\<lambda>pattern. test pattern (path file)) skipPatterns then True
      else False)"

definition programmingLanguages :: "string list" where
  "programmingLanguages =
     [''typescript'', ''javascript'', ''python'', ''java'', ''c_cpp'',
      ''csharp'', ''go'', ''ruby'', ''php'', ''swift'', ''rust'', ''kotlin'']"

definition isProgrammingFile :: "GitHubFile \<Rightarrow> bool" where
  "isProgrammingFile file =
     (case language file of
        None \<Rightarrow> False
      | Some l \<Rightarrow> if l = [] then False else l \<in> set programmingLanguages)"

subsection \<open>Use-case classification\<close>

definition isTestFile :: "GitHubFile \<Rightarrow> bool" where
  "isTestFile file =
     (let fileName = toLowerCase (basename (path file)) in
      includes_str fileName ''test'' \<or> includes_str fileName ''spec'' \<or>
      includes_str (path file) ''test/'' \<or> includes_str (path file) ''tests/'' \<or>
      includes_str (path file) ''__tests__/'')"

definition isDocFile :: "GitHubFile \<Rightarrow> bool" where
  "isDocFile file =
     (let fileName = toLowerCase (basename (path file)) in
      includes_str fileName ''readme'' \<or> includes_str fileName ''documentation'' \<or>
      includes_str fileName ''docs'' \<or> extname (path file) = ''.md'')"

definition isApiFile :: "GitHubFile \<Rightarrow> bool" where
  "isApiFile file =
     (let fileName = toLowerCase (basename (path file)) in
      includes_str fileName ''api'' \<or> includes_str fileName ''interface'' \<or>
      includes_str fileName ''contract'' \<or> endsWith fileName ''.d.ts'')"

definition determineUseCases_rules :: "GitHubFile \<Rightarrow> UseCase list" where
  \<comment> \<open>the array \<open>useCases\<close> of \<open>determineUseCases\<close> after its three rules, before
      the test \<open>useCases.length === 0\<close>\<close>
  "determineUseCases_rules file =
     (let fileName = toLowerCase (basename (path file)) in
      (if \<not> isTestFile file \<and> \<not> isDocFile file then [BUG_FIXING] else []) @
      (if isApiFile file \<or> includes_str fileName ''example'' \<or> isTestFile file
       then [CODE_GENERATION] else []) @
      (if isDocFile file \<or> isApiFile file \<or> includes_str (path file) ''public/''
       then [EXPLANATION] else []))"

definition determineUseCases :: "GitHubFile \<Rightarrow> UseCase list" where
  "determineUseCases file =
     (let ucs = determineUseCases_rules file in
      if length ucs = 0 then ucs @ [BUG_FIXING, CODE_GENERATION, EXPLANATION] else ucs)"

definition determineUseCasesForSymbol_rules ::
    "string \<Rightarrow> ChunkType \<Rightarrow> GitHubFile \<Rightarrow> UseCase list" where
  \<comment> \<open>the array \<open>useCases\<close> of \<open>determineUseCasesForSymbol\<close> before its fallback\<close>
  "determineUseCasesForSymbol_rules symName chunkType file =
     (let lowerSymbolName = toLowerCase symName in
      (if includes_str lowerSymbolName ''error'' \<or> includes_str lowerSymbolName ''exception'' \<or>
          includes_str lowerSymbolName ''handle'' \<or> includes_str lowerSymbolName ''process'' \<or>
          includes_str lowerSymbolName ''validate''
       then [BUG_FIXING] else []) @
      (if includes_str lowerSymbolName ''create'' \<or> includes_str lowerSymbolName ''build'' \<or>
          includes_str lowerSymbolName ''new'' \<or> includes_str lowerSymbolName ''get'' \<or>
          includes_str lowerSymbolName ''generate'' \<or> startsWith lowerSymbolName ''to'' \<or>
          startsWith lowerSymbolName ''from'' \<or> chunkType = CLASS
       then [CODE_GENERATION] else []) @
      (if \<not> startsWith lowerSymbolName ''_'' \<and> \<not> includes_str lowerSymbolName ''internal'' \<and>
          \<not> includes_str lowerSymbolName ''private'' \<and>
          (includes_str lowerSymbolName ''public'' \<or> includes_str (path file) ''public'' \<or>
           chunkType = CLASS)
       then [EXPLANATION] else []))"

definition determineUseCasesForSymbol ::
    "string \<Rightarrow> ChunkType \<Rightarrow> GitHubFile \<Rightarrow> UseCase list" where
  "determineUseCasesForSymbol symName chunkType file =
     (let ucs = determineUseCasesForSymbol_rules symName chunkType file in
      if length ucs = 0 then ucs @ [BUG_FIXING, CODE_GENERATION, EXPLANATION] else ucs)"

subsection \<open>File-level chunks\<close>

text \<open>
  \<open>uuidv4()\<close> is a source of fresh identifiers: the model takes the source as a function
  from the number of identifiers drawn so far, and every function that draws identifiers
  returns the new count.
\<close>

definition createFileChunks ::
    "GitHubRepositoryInfo \<Rightarrow> (nat \<Rightarrow> string) \<Rightarrow> nat \<Rightarrow> GitHubFile \<Rightarrow> CodeChunk list \<times> nat" where
  "createFileChunks repoInfo uuidv4 n file =
     (let fileId = ''file-'' @ uuidv4 n;
          fileName = basename (path file);
          fileExt = extname (path file);
          ucs = determineUseCases file;
          chunks = [\<lparr>chunk_id = fileId, chunk_content = content file, chunk_type = FILE,
                     useCases = ucs,
                     metadata = \<lparr>repositoryInfo = repoInfo, filePath = path file,
                                 meta_language = language file, startLine = None,
                                 endLine = None, symbolName = None\<rparr>\<rparr>]
      in if toLowerCase fileName = ''readme.md'' \<or> toLowerCase fileName = ''readme'' \<or>
            (includes_str (toLowerCase fileName) ''readme'' \<and> fileExt = ''.md'')
         then (chunks @
                [\<lparr>chunk_id = ''summary-'' @ uuidv4 (n + 1), chunk_content = content file,
                   chunk_type = SUMMARY, useCases = [EXPLANATION],
                   metadata = \<lparr>repositoryInfo = repoInfo, filePath = path file,
                               meta_language = language file, startLine = None,
                               endLine = None, symbolName = None\<rparr>\<rparr>],
               n + 2)
         else (chunks, n + 1))"

subsection \<open>Symbol boundary detection\<close>

definition functionRe :: rx where
  \<comment> \<open>\<open>/(?:function|def|public|private|protected)?\s*(\w+)\s*\([^)]*\)\s*(?::\s*\w+)?\s*{?/\<close>\<close>
  "functionRe =
     Seq (Opt (Alt (Str ''function'') (Alt (Str ''def'') (Alt (Str ''public'')
            (Alt (Str ''private'') (Str ''protected''))))))
    (Seq (Star (Cls isSpace))
    (Seq (Grp 1 (Plus (Cls isWord)))
    (Seq (Star (Cls isSpace))
    (Seq (Chr CHR ''('')
    (Seq (Star (Cls (\<lambda>c. c \<noteq> CHR '')'')))
    (Seq (Chr CHR '')'')
    (Seq (Star (Cls isSpace))
    (Seq (Opt (Seq (Chr CHR '':'') (Seq (Star (Cls isSpace)) (Plus (Cls isWord)))))
    (Seq (Star (Cls isSpace))
         (Opt (Chr CHR ''{'')))))))))))"

definition classRe :: rx where
  \<comment> \<open>\<open>/(?:class|interface)\s+(\w+)(?:\s+extends|\s+implements|\s*{)?/\<close>\<close>
  "classRe =
     Seq (Alt (Str ''class'') (Str ''interface''))
    (Seq (Plus (Cls isSpace))
    (Seq (Grp 1 (Plus (Cls isWord)))
         (Opt (Alt (Seq (Plus (Cls isSpace)) (Str ''extends''))
              (Alt (Seq (Plus (Cls isSpace)) (Str ''implements''))
                   (Seq (Star (Cls isSpace)) (Chr CHR ''{'')))))))"

definition closeRe :: rx where
  \<comment> \<open>\<open>/^\s*}\s*$/\<close>\<close>
  "closeRe =
     Seq Bol (Seq (Star (Cls isSpace)) (Seq (Chr CHR ''}'') (Seq (Star (Cls isSpace)) Eol)))"

record currentFunction =
  sym_name :: "string option"
  sym_content :: "string list"
  sym_startLine :: int
  sym_endLine :: int
  isClass :: bool

type_synonym scan_state = "CodeChunk list \<times> currentFunction option \<times> nat"

definition symbolChunk ::
    "GitHubRepositoryInfo \<Rightarrow> (nat \<Rightarrow> string) \<Rightarrow> nat \<Rightarrow> GitHubFile \<Rightarrow> currentFunction
       \<Rightarrow> CodeChunk option" where
  \<comment> \<open>the chunk pushed for a finished region. \<open>None\<close> is the TypeError that
      \<open>determineUseCasesForSymbol\<close> throws on a name that is \<open>undefined\<close>.\<close>
  "symbolChunk repoInfo uuidv4 n file cf =
     (case sym_name cf of
        None \<Rightarrow> None
      | Some nm \<Rightarrow>
          (let chunkType = (if isClass cf then CLASS else FUNCTION);
               ucs = determineUseCasesForSymbol nm chunkType file
           in Some \<lparr>chunk_id = toLowerCase (ChunkType_value chunkType) @ ''-'' @ uuidv4 n,
                    chunk_content = join [CHR 0x0A] (sym_content cf),
                    chunk_type = chunkType, useCases = ucs,
                    metadata = \<lparr>repositoryInfo = repoInfo, filePath = path file,
                                meta_language = language file,
                                startLine = Some (sym_startLine cf),
                                endLine = Some (sym_endLine cf),
                                symbolName = Some nm\<rparr>\<rparr>))"

definition scanStep ::
    "GitHubRepositoryInfo \<Rightarrow> (nat \<Rightarrow> string) \<Rightarrow> GitHubFile \<Rightarrow> int \<Rightarrow> string \<Rightarrow> scan_state
       \<Rightarrow> (CodeChunk list \<times> nat) + scan_state" where
  \<comment> \<open>one iteration of the loop over the lines; \<open>Inl\<close> is an exception, caught by
      \<open>createCodeChunks\<close>, with the chunks pushed before it\<close>
  "scanStep repoInfo uuidv4 file i line st =
     (case st of (chunks, cur, n) \<Rightarrow>
      (let functionMatch = exec functionRe line;
           classMatch = exec classRe line
       in case cur of
            Some cf \<Rightarrow>
              if (isClass cf \<and> trim line = ''}'') \<or> (\<not> isClass cf \<and> test closeRe line)
              then (case symbolChunk repoInfo uuidv4 n file
                           (cf\<lparr>sym_content := sym_content cf @ [line], sym_endLine := i\<rparr>) of
                      None \<Rightarrow> Inl (chunks, n)
                    | Some c \<Rightarrow> Inr (chunks @ [c], None, n + 1))
              else Inr (chunks, Some (cf\<lparr>sym_content := sym_content cf @ [line]\<rparr>), n)
          | None \<Rightarrow>
              (case classMatch of
                 Some m \<Rightarrow>
                   Inr (chunks,
                        Some \<lparr>sym_name = map_of m 1, sym_content = [line], sym_startLine = i,
                              sym_endLine = - 1, isClass = True\<rparr>, n)
               | None \<Rightarrow>
                   (case functionMatch of
                      Some m \<Rightarrow>
                        Inr (chunks,
                             Some \<lparr>sym_name = map_of m 1, sym_content = [line],
                                   sym_startLine = i, sym_endLine = - 1, isClass = False\<rparr>, n)
                    | None \<Rightarrow> Inr (chunks, None, n)))))"

fun scanLines ::
    "GitHubRepositoryInfo \<Rightarrow> (nat \<Rightarrow> string) \<Rightarrow> GitHubFile \<Rightarrow> int \<Rightarrow> string list \<Rightarrow> scan_state
       \<Rightarrow> (CodeChunk list \<times> nat) + scan_state" where
  "scanLines repoInfo uuidv4 file i [] st = Inr st"
| "scanLines repoInfo uuidv4 file i (line # rest) st =
     (case scanStep repoInfo uuidv4 file i line st of
        Inl e \<Rightarrow> Inl e
      | Inr st' \<Rightarrow> scanLines repoInfo uuidv4 file (i + 1) rest st')"

definition createCodeChunks ::
    "GitHubRepositoryInfo \<Rightarrow> (nat \<Rightarrow> string) \<Rightarrow> nat \<Rightarrow> GitHubFile \<Rightarrow> CodeChunk list \<times> nat" where
  "createCodeChunks repoInfo uuidv4 n file =
     (let lines = split_on (CHR 0x0A) (content file) in
      case scanLines repoInfo uuidv4 file 0 lines ([], None, n) of
        Inl e \<Rightarrow> e
      | Inr (chunks, cur, n') \<Rightarrow>
          (case cur of
             None \<Rightarrow> (chunks, n')
           | Some cf \<Rightarrow>
               (case symbolChunk repoInfo uuidv4 n' file
                      (cf\<lparr>sym_endLine := int (length lines) - 1\<rparr>) of
                  None \<Rightarrow> (chunks, n')
                | Some c \<Rightarrow> (chunks @ [c], n' + 1))))"

subsection \<open>processFiles\<close>

fun processFiles_loop ::
    "GitHubRepositoryInfo \<Rightarrow> (nat \<Rightarrow> string) \<Rightarrow> GitHubFile list \<Rightarrow> CodeChunk list \<times> nat
       \<Rightarrow> CodeChunk list \<times> nat" where
  "processFiles_loop repoInfo uuidv4 [] st = st"
| "processFiles_loop repoInfo uuidv4 (file # files) (chunks, n) =
     (if shouldSkipFile file then processFiles_loop repoInfo uuidv4 files (chunks, n)
      else
        (let (fc, n1) = createFileChunks repoInfo uuidv4 n file;
             chunks1 = chunks @ fc
         in if isProgrammingFile file
            then (let (cc, n2) = createCodeChunks repoInfo uuidv4 n1 file
                  in processFiles_loop repoInfo uuidv4 files (chunks1 @ cc, n2))
            else processFiles_loop repoInfo uuidv4 files (chunks1, n1)))"

definition processFiles ::
    "GitHubRepositoryInfo \<Rightarrow> (nat \<Rightarrow> string) \<Rightarrow> nat \<Rightarrow> GitHubFile list \<Rightarrow> CodeChunk list \<times> nat" where
  "processFiles repoInfo uuidv4 n files = processFiles_loop repoInfo uuidv4 files ([], n)"

section \<open>GitHubRepository (packages/etl/src/github-repo.ts)\<close>

definition GitHubRepository_repoInfo :: "GitHubRepositoryInfo \<Rightarrow> GitHubRepositoryInfo" where
  \<comment> \<open>the field \<open>repoInfo\<close> that the constructor leaves; an empty owner or name is
      falsy, \<open>pop() || ''\<close> is the last element of a non-empty array of strings\<close>
  "GitHubRepository_repoInfo repoInfo =
     (if owner repoInfo = [] \<or> name repoInfo = [] then
        (let urlParts = split_on CHR ''/'' (url repoInfo) in
         if length urlParts \<ge> 2 then
           (let nm = last urlParts;
                urlParts' = butlast urlParts;
                ow = last urlParts'
            in repoInfo\<lparr>owner := (if owner repoInfo \<noteq> [] then owner repoInfo else ow),
                        name := (if name repoInfo \<noteq> [] then name repoInfo
                                 else replace nm ''.git'' [])\<rparr>)
         else repoInfo)
      else repoInfo)"

section \<open>Specification vocabulary\<close>

text \<open>
  The lines \<open>[s, e]\<close> of a file, what it means for a symbol chunk to be well-formed
  with respect to the lines of its file, the invariant of the scanning loop, and the chunks
  one iteration of the loop of \<open>processFiles\<close> appends.
\<close>

definition slice_lines :: "int \<Rightarrow> int \<Rightarrow> string list \<Rightarrow> string list" where
  "slice_lines s e lines = take (nat (e - s + 1)) (drop (nat s) lines)"

definition symbolChunk_ok :: "GitHubFile \<Rightarrow> string list \<Rightarrow> CodeChunk \<Rightarrow> bool" where
  "symbolChunk_ok file lines c =
     ((chunk_type c = CLASS \<or> chunk_type c = FUNCTION) \<and>
      filePath (metadata c) = path file \<and>
      (\<exists>s e. startLine (metadata c) = Some s \<and> endLine (metadata c) = Some e \<and>
             0 \<le> s \<and> s \<le> e \<and> e < int (length lines) \<and>
             chunk_content c = join [CHR 0x0A] (slice_lines s e lines)))"

definition region_ok :: "string list \<Rightarrow> currentFunction \<Rightarrow> bool" where
  "region_ok pre cf =
     (0 \<le> sym_startLine cf \<and> sym_startLine cf < int (length pre) \<and>
      sym_content cf = drop (nat (sym_startLine cf)) pre)"

definition scan_inv :: "GitHubFile \<Rightarrow> string list \<Rightarrow> scan_state \<Rightarrow> bool" where
  "scan_inv file pre st =
     (case st of (chunks, cur, n) \<Rightarrow>
        (\<forall>c \<in> set chunks. symbolChunk_ok file pre c) \<and>
        (case cur of None \<Rightarrow> True | Some cf \<Rightarrow> region_ok pre cf))"

definition fileContribution ::
    "GitHubRepositoryInfo \<Rightarrow> (nat \<Rightarrow> string) \<Rightarrow> nat \<Rightarrow> GitHubFile \<Rightarrow> CodeChunk list" where
  "fileContribution repoInfo uuidv4 n file =
     (if shouldSkipFile file then []
      else fst (createFileChunks repoInfo uuidv4 n file) @
           (if isProgrammingFile file
            then fst (createCodeChunks repoInfo uuidv4
                        (snd (createFileChunks repoInfo uuidv4 n file)) file)
            else []))"


subsection \<open>Example inputs\<close>

definition example_repo :: GitHubRepositoryInfo where
  "example_repo = \<lparr>url = ''https://github.com/octocat/hello'', owner = ''octocat'',
                    name = ''hello'', branch = None\<rparr>"

definition example_uuid :: "nat \<Rightarrow> string" where
  "example_uuid k = replicate (Suc k) CHR ''u''"

definition foo_js :: GitHubFile where
  "foo_js = \<lparr>path = ''src/foo.js'',
              content = ''function foo() {'' @ [CHR 0x0A] @ ''  return 1;'' @ [CHR 0x0A] @ ''}'',
              language = Some ''javascript'', size_bytes = 30\<rparr>"

definition bar_ts :: GitHubFile where
  "bar_ts = \<lparr>path = ''src/bar.ts'',
              content = ''class Bar {'' @ [CHR 0x0A] @ ''}'' @ [CHR 0x0A],
              language = Some ''typescript'', size_bytes = 14\<rparr>"

definition truncated_js :: GitHubFile where
  "truncated_js = \<lparr>path = ''src/truncated.js'',
                    content = ''function foo() {'' @ [CHR 0x0A] @ ''  return 1;'',
                    language = Some ''javascript'', size_bytes = 28\<rparr>"

definition readme_md :: GitHubFile where
  "readme_md = \<lparr>path = ''README.md'', content = ''# hello'', language = None,
                 size_bytes = 7\<rparr>"

definition blank_txt :: GitHubFile where
  "blank_txt = \<lparr>path = ''notes.txt'', content = ''  '', language = None, size_bytes = 2\<rparr>"

section \<open>Use-case classification: properties\<close>

lemma determineUseCases_rules_nonempty: "determineUseCases_rules file \<noteq> []"
  by (simp add: determineUseCases_rules_def Let_def)

text \<open>
  C4. \<open>determineUseCases\<close> (classifyFile) and \<open>determineUseCasesForSymbol\<close>
  (classifySymbol) are total functions of the model, and for every input each returns a
  non-empty list of use cases; when no rule of the symbol classifier matches, its
  fallback returns all three labels.
\<close>

theorem classification_total_nonempty:
  "determineUseCases file \<noteq> [] \<and>
   determineUseCasesForSymbol symName chunkType file \<noteq> [] \<and>
   (determineUseCasesForSymbol_rules symName chunkType file = [] \<longrightarrow>
      determineUseCasesForSymbol symName chunkType file =
        [BUG_FIXING, CODE_GENERATION, EXPLANATION])"
  by (simp add: determineUseCases_def determineUseCasesForSymbol_def Let_def)

theorem classification_total_nonempty_witness:
  "determineUseCasesForSymbol_rules ''foo'' FUNCTION
     \<lparr>path = ''src/a.js'', content = ''x'', language = Some ''javascript'', size_bytes = 1\<rparr> = [] \<and>
   determineUseCasesForSymbol ''foo'' FUNCTION
     \<lparr>path = ''src/a.js'', content = ''x'', language = Some ''javascript'', size_bytes = 1\<rparr>
     = [BUG_FIXING, CODE_GENERATION, EXPLANATION] \<and>
   determineUseCases
     \<lparr>path = ''src/a.js'', content = ''x'', language = Some ''javascript'', size_bytes = 1\<rparr> \<noteq> []"
proof -
  have h: "determineUseCasesForSymbol_rules ''foo'' FUNCTION
     \<lparr>path = ''src/a.js'', content = ''x'', language = Some ''javascript'', size_bytes = 1\<rparr> = []"
    by code_simp
  show ?thesis
    using h classification_total_nonempty [of
      "\<lparr>path = ''src/a.js'', content = ''x'', language = Some ''javascript'', size_bytes = 1\<rparr>"
      "''foo''" FUNCTION]
    by simp
qed



lemma determineUseCases_no_fallback: "determineUseCases file = determineUseCases_rules file"
  by (simp add: determineUseCases_def Let_def determineUseCases_rules_nonempty)

text \<open>
  C5. For every file, \<open>determineUseCases\<close> includes \<open>BUG_FIXING\<close> iff the file is
  neither a test file nor a doc file, \<open>CODE_GENERATION\<close> iff it is an API file, its
  file name contains \<open>example\<close> or it is a test file, and \<open>EXPLANATION\<close> iff it is a
  doc file, an API file or its path contains \<open>public/\<close>. A doc file is one whose file
  name contains \<open>readme\<close>, \<open>documentation\<close> or \<open>docs\<close>, or whose extension is
  \<open>.md\<close>. The file name is, as in the source, the lower-cased base name of the path.
\<close>

theorem determineUseCases_rules_iff:
  "(BUG_FIXING \<in> set (determineUseCases file) \<longleftrightarrow> \<not> isTestFile file \<and> \<not> isDocFile file) \<and>
   (CODE_GENERATION \<in> set (determineUseCases file) \<longleftrightarrow>
      isApiFile file \<or> includes_str (toLowerCase (basename (path file))) ''example'' \<or>
      isTestFile file) \<and>
   (EXPLANATION \<in> set (determineUseCases file) \<longleftrightarrow>
      isDocFile file \<or> isApiFile file \<or> includes_str (path file) ''public/'') \<and>
   (isDocFile file \<longleftrightarrow>
      includes_str (toLowerCase (basename (path file))) ''readme'' \<or>
      includes_str (toLowerCase (basename (path file))) ''documentation'' \<or>
      includes_str (toLowerCase (basename (path file))) ''docs'' \<or>
      extname (path file) = ''.md'')"
  unfolding determineUseCases_no_fallback
  by (simp add: determineUseCases_rules_def isDocFile_def Let_def)

theorem determineUseCases_rules_iff_witness:
  "isDocFile \<lparr>path = ''docs/README.md'', content = ''x'', language = None, size_bytes = 1\<rparr> \<and>
   BUG_FIXING \<notin> set (determineUseCases
     \<lparr>path = ''docs/README.md'', content = ''x'', language = None, size_bytes = 1\<rparr>) \<and>
   EXPLANATION \<in> set (determineUseCases
     \<lparr>path = ''docs/README.md'', content = ''x'', language = None, size_bytes = 1\<rparr>)"
proof -
  have h: "isDocFile \<lparr>path = ''docs/README.md'', content = ''x'', language = None, size_bytes = 1\<rparr>"
    by code_simp
  show ?thesis
    using h determineUseCases_rules_iff [of
      "\<lparr>path = ''docs/README.md'', content = ''x'', language = None, size_bytes = 1\<rparr>"]
    by simp
qed

text \<open>
  C10. For every file the three rules of \<open>determineUseCases\<close> already give a non-empty
  list: a file that is neither test nor doc gets \<open>BUG_FIXING\<close>, a test file gets
  \<open>CODE_GENERATION\<close> and a doc file gets \<open>EXPLANATION\<close>. So the fallback of
  \<open>determineUseCases\<close> is never taken, while the rules of
  \<open>determineUseCasesForSymbol\<close> can give the empty list.
\<close>

theorem determineUseCases_fallback_unreachable:
  "determineUseCases_rules file \<noteq> [] \<and>
   determineUseCases file = determineUseCases_rules file \<and>
   (\<not> isTestFile file \<and> \<not> isDocFile file \<longrightarrow> BUG_FIXING \<in> set (determineUseCases_rules file)) \<and>
   (isTestFile file \<longrightarrow> CODE_GENERATION \<in> set (determineUseCases_rules file)) \<and>
   (isDocFile file \<longrightarrow> EXPLANATION \<in> set (determineUseCases_rules file)) \<and>
   (\<exists>symName chunkType file'. determineUseCasesForSymbol_rules symName chunkType file' = [])"
proof -
  have "determineUseCasesForSymbol_rules ''foo'' FUNCTION
     \<lparr>path = ''src/a.js'', content = ''x'', language = Some ''javascript'', size_bytes = 1\<rparr> = []"
    by code_simp
  then have ex: "\<exists>symName chunkType file'.
      determineUseCasesForSymbol_rules symName chunkType file' = []"
    by blast
  have rules: "(\<not> isTestFile file \<and> \<not> isDocFile file \<longrightarrow> BUG_FIXING \<in> set (determineUseCases_rules file)) \<and>
   (isTestFile file \<longrightarrow> CODE_GENERATION \<in> set (determineUseCases_rules file)) \<and>
   (isDocFile file \<longrightarrow> EXPLANATION \<in> set (determineUseCases_rules file))"
    by (simp add: determineUseCases_rules_def Let_def)
  show ?thesis
    using ex rules determineUseCases_rules_nonempty determineUseCases_no_fallback by blast
qed

theorem determineUseCases_fallback_unreachable_witness:
  "BUG_FIXING \<in> set (determineUseCases_rules
     \<lparr>path = ''src/a.js'', content = ''x'', language = Some ''javascript'', size_bytes = 1\<rparr>) \<and>
   CODE_GENERATION \<in> set (determineUseCases_rules
     \<lparr>path = ''src/a.test.js'', content = ''x'', language = Some ''javascript'', size_bytes = 1\<rparr>) \<and>
   EXPLANATION \<in> set (determineUseCases_rules
     \<lparr>path = ''docs/README.md'', content = ''x'', language = None, size_bytes = 1\<rparr>)"
proof -
  have a: "\<not> isTestFile \<lparr>path = ''src/a.js'', content = ''x'', language = Some ''javascript'', size_bytes = 1\<rparr>
      \<and> \<not> isDocFile \<lparr>path = ''src/a.js'', content = ''x'', language = Some ''javascript'', size_bytes = 1\<rparr>"
    by code_simp
  have b: "isTestFile \<lparr>path = ''src/a.test.js'', content = ''x'', language = Some ''javascript'', size_bytes = 1\<rparr>"
    by code_simp
  have c: "isDocFile \<lparr>path = ''docs/README.md'', content = ''x'', language = None, size_bytes = 1\<rparr>"
    by code_simp
  show ?thesis
    using a b c
      determineUseCases_fallback_unreachable [of
        "\<lparr>path = ''src/a.js'', content = ''x'', language = Some ''javascript'', size_bytes = 1\<rparr>"]
      determineUseCases_fallback_unreachable [of
        "\<lparr>path = ''src/a.test.js'', content = ''x'', language = Some ''javascript'', size_bytes = 1\<rparr>"]
      determineUseCases_fallback_unreachable [of
        "\<lparr>path = ''docs/README.md'', content = ''x'', language = None, size_bytes = 1\<rparr>"]
    by blast
qed

section \<open>The scanning loop keeps line ranges and contents\<close>

lemma slice_lines_append:
  "0 \<le> s \<Longrightarrow> e < int (length pre) \<Longrightarrow> slice_lines s e (pre @ rest) = slice_lines s e pre"
  by (simp add: slice_lines_def)

lemma slice_lines_to_end:
  "0 \<le> s \<Longrightarrow> s < int (length ls) \<Longrightarrow> slice_lines s (int (length ls) - 1) ls = drop (nat s) ls"
  by (simp add: slice_lines_def)

lemma symbolChunk_ok_append:
  "symbolChunk_ok file pre c \<Longrightarrow> symbolChunk_ok file (pre @ rest) c"
  unfolding symbolChunk_ok_def
  by (auto simp: slice_lines_append)

lemma symbolChunk_closed_ok:
  assumes reg: "region_ok pre cf"
    and sc: "symbolChunk repoInfo uuid n file
               (cf\<lparr>sym_content := sym_content cf @ [line], sym_endLine := int (length pre)\<rparr>) = Some c"
  shows "symbolChunk_ok file (pre @ [line]) c"
proof -
  let ?s = "sym_startLine cf"
  from reg have s0: "0 \<le> ?s" and s1: "?s < int (length pre)"
    and ct: "sym_content cf = drop (nat ?s) pre"
    by (simp_all add: region_ok_def)
  have sl: "slice_lines ?s (int (length pre)) (pre @ [line]) = drop (nat ?s) pre @ [line]"
    using s0 s1 slice_lines_to_end [of ?s "pre @ [line]"] by simp
  from sc show ?thesis
    unfolding symbolChunk_ok_def symbolChunk_def
    using s0 s1 ct sl
    by (cases "isClass cf") (auto simp: Let_def split: option.splits)
qed

lemma symbolChunk_eof_ok:
  assumes reg: "region_ok ls cf"
    and sc: "symbolChunk repoInfo uuid n file (cf\<lparr>sym_endLine := int (length ls) - 1\<rparr>) = Some c"
  shows "symbolChunk_ok file ls c"
proof -
  let ?s = "sym_startLine cf"
  from reg have s0: "0 \<le> ?s" and s1: "?s < int (length ls)"
    and ct: "sym_content cf = drop (nat ?s) ls"
    by (simp_all add: region_ok_def)
  from sc show ?thesis
    unfolding symbolChunk_ok_def symbolChunk_def
    using s0 s1 ct slice_lines_to_end [OF s0 s1]
    by (cases "isClass cf") (auto simp: Let_def split: option.splits)
qed

lemma region_ok_append:
  "region_ok pre cf \<Longrightarrow>
   region_ok (pre @ [line]) (cf\<lparr>sym_content := sym_content cf @ [line]\<rparr>)"
proof -
  assume reg: "region_ok pre cf"
  then have "nat (sym_startLine cf) \<le> length pre"
    unfolding region_ok_def by linarith
  then have "nat (sym_startLine cf) - length pre = 0"
    by simp
  with reg show ?thesis
    by (simp add: region_ok_def)
qed

lemma region_ok_new:
  "region_ok (pre @ [line])
     \<lparr>sym_name = nm, sym_content = [line], sym_startLine = int (length pre),
      sym_endLine = e, isClass = b\<rparr>"
  by (simp add: region_ok_def)

lemma scanStep_inv:
  assumes inv: "scan_inv file pre st"
  shows "(\<forall>chunks' n'. scanStep repoInfo uuid file (int (length pre)) line st = Inl (chunks', n')
            \<longrightarrow> (\<forall>c \<in> set chunks'. symbolChunk_ok file (pre @ [line]) c)) \<and>
         (\<forall>st'. scanStep repoInfo uuid file (int (length pre)) line st = Inr st'
            \<longrightarrow> scan_inv file (pre @ [line]) st')"
proof -
  obtain chunks cur n where st: "st = (chunks, cur, n)"
    by (cases st) auto
  from inv st have ch: "\<forall>c \<in> set chunks. symbolChunk_ok file (pre @ [line]) c"
    by (auto simp: scan_inv_def intro: symbolChunk_ok_append)
  show ?thesis
  proof (cases cur)
    case None
    with st ch show ?thesis
      by (auto simp: scanStep_def scan_inv_def Let_def region_ok_new split: option.splits)
  next
    case (Some cf)
    with inv st have reg: "region_ok pre cf"
      by (simp add: scan_inv_def)
    show ?thesis
      using st Some ch region_ok_append [OF reg] symbolChunk_closed_ok [OF reg]
      by (auto simp: scanStep_def scan_inv_def Let_def split: option.splits if_splits)
  qed
qed

lemma scanLines_inv:
  "scan_inv file pre st \<Longrightarrow>
   (\<forall>chunks' n'. scanLines repoInfo uuid file (int (length pre)) rest st = Inl (chunks', n')
      \<longrightarrow> (\<forall>c \<in> set chunks'. symbolChunk_ok file (pre @ rest) c)) \<and>
   (\<forall>st'. scanLines repoInfo uuid file (int (length pre)) rest st = Inr st'
      \<longrightarrow> scan_inv file (pre @ rest) st')"
proof (induction rest arbitrary: pre st)
  case Nil
  then show ?case by simp
next
  case (Cons line rest)
  note step = scanStep_inv [where repoInfo = repoInfo and uuid = uuid and line = line, OF Cons.prems]
  show ?case
  proof (cases "scanStep repoInfo uuid file (int (length pre)) line st")
    case (Inl e)
    obtain chunks' n' where e: "e = (chunks', n')" by (cases e) auto
    from step Inl e have "\<forall>c \<in> set chunks'. symbolChunk_ok file (pre @ [line]) c"
      by simp
    then have "\<forall>c \<in> set chunks'. symbolChunk_ok file ((pre @ [line]) @ rest) c"
      by (blast intro: symbolChunk_ok_append)
    with Inl e show ?thesis by simp
  next
    case (Inr st')
    with step have "scan_inv file (pre @ [line]) st'" by simp
    from Cons.IH [OF this] Inr show ?thesis
      by (simp add: add.commute)
  qed
qed

lemma createCodeChunks_ok:
  assumes c: "c \<in> set (fst (createCodeChunks repoInfo uuid n file))"
  shows "symbolChunk_ok file (split_on (CHR 0x0A) (content file)) c"
proof -
  let ?ls = "split_on (CHR 0x0A) (content file)"
  have "scan_inv file [] ([], None, n)"
    by (simp add: scan_inv_def)
  from scanLines_inv [where repoInfo = repoInfo and uuid = uuid and rest = ?ls, OF this]
  have invl: "\<And>chunks' n'. scanLines repoInfo uuid file 0 ?ls ([], None, n) = Inl (chunks', n')
      \<Longrightarrow> \<forall>c \<in> set chunks'. symbolChunk_ok file ?ls c"
    and invr: "\<And>st'. scanLines repoInfo uuid file 0 ?ls ([], None, n) = Inr st'
      \<Longrightarrow> scan_inv file ?ls st'"
    by simp_all
  show ?thesis
  proof (cases "scanLines repoInfo uuid file 0 ?ls ([], None, n)")
    case (Inl e)
    obtain chunks' n' where e: "e = (chunks', n')" by (cases e) auto
    from invl Inl e c show ?thesis
      by (auto simp: createCodeChunks_def Let_def)
  next
    case (Inr st')
    obtain chunks cur n' where st': "st' = (chunks, cur, n')" by (cases st') auto
    from invr [OF Inr] st' have ch: "\<forall>c \<in> set chunks. symbolChunk_ok file ?ls c"
      and reg: "\<And>cf. cur = Some cf \<Longrightarrow> region_ok ?ls cf"
      by (auto simp: scan_inv_def)
    show ?thesis
    proof (cases cur)
      case None
      with Inr st' ch c show ?thesis
        by (auto simp: createCodeChunks_def Let_def)
    next
      case (Some cf)
      show ?thesis
        using Inr st' ch c Some symbolChunk_eof_ok [OF reg [OF Some]]
        by (auto simp: createCodeChunks_def Let_def split: option.splits)
    qed
  qed
qed

section \<open>processFiles\<close>

lemma createFileChunks_FILE:
  "\<exists>c. filter (\<lambda>c. chunk_type c = FILE) (fst (createFileChunks repoInfo uuid n file)) = [c] \<and>
       chunk_content c = content file"
  by (simp add: createFileChunks_def Let_def)

lemma createFileChunks_SUMMARY:
  "if toLowerCase (basename (path file)) = ''readme.md'' \<or>
      toLowerCase (basename (path file)) = ''readme'' \<or>
      (includes_str (toLowerCase (basename (path file))) ''readme'' \<and>
       extname (path file) = ''.md'')
   then \<exists>c. filter (\<lambda>c. chunk_type c = SUMMARY) (fst (createFileChunks repoInfo uuid n file)) = [c] \<and>
            chunk_content c = content file \<and> useCases c = [EXPLANATION]
   else filter (\<lambda>c. chunk_type c = SUMMARY) (fst (createFileChunks repoInfo uuid n file)) = []"
  by (simp add: createFileChunks_def Let_def)

lemma createFileChunks_no_lines:
  "c \<in> set (fst (createFileChunks repoInfo uuid n file)) \<Longrightarrow>
   (chunk_type c = FILE \<or> chunk_type c = SUMMARY) \<and>
   startLine (metadata c) = None \<and> endLine (metadata c) = None"
  by (auto simp: createFileChunks_def Let_def split: if_splits)

lemma createCodeChunks_no_FILE:
  "filter (\<lambda>c. chunk_type c = FILE) (fst (createCodeChunks repoInfo uuid n file)) = []"
  by (auto simp: filter_empty_conv symbolChunk_ok_def dest!: createCodeChunks_ok)

lemma createCodeChunks_no_SUMMARY:
  "filter (\<lambda>c. chunk_type c = SUMMARY) (fst (createCodeChunks repoInfo uuid n file)) = []"
  by (auto simp: filter_empty_conv symbolChunk_ok_def dest!: createCodeChunks_ok)

lemma processFiles_loop_step:
  "\<exists>n'. processFiles_loop repoInfo uuid (file # files) (acc, n) =
         processFiles_loop repoInfo uuid files (acc @ fileContribution repoInfo uuid n file, n')"
  by (auto simp: fileContribution_def Let_def split: prod.splits)

lemma processFiles_loop_partition:
  "\<exists>css. list_all2 (\<lambda>file cs. \<exists>m. cs = fileContribution repoInfo uuid m file) files css \<and>
         fst (processFiles_loop repoInfo uuid files (acc, n)) = acc @ concat css"
proof (induction files arbitrary: acc n)
  case Nil
  show ?case by simp
next
  case (Cons f files)
  obtain n' where step: "processFiles_loop repoInfo uuid (f # files) (acc, n) =
      processFiles_loop repoInfo uuid files (acc @ fileContribution repoInfo uuid n f, n')"
    using processFiles_loop_step by blast
  from Cons.IH [of "acc @ fileContribution repoInfo uuid n f" n']
  obtain css where css: "list_all2 (\<lambda>file cs. \<exists>m. cs = fileContribution repoInfo uuid m file) files css"
    and out: "fst (processFiles_loop repoInfo uuid files
                (acc @ fileContribution repoInfo uuid n f, n')) =
              (acc @ fileContribution repoInfo uuid n f) @ concat css"
    by blast
  have "list_all2 (\<lambda>file cs. \<exists>m. cs = fileContribution repoInfo uuid m file)
          (f # files) (fileContribution repoInfo uuid n f # css)"
    using css by auto
  moreover have "fst (processFiles_loop repoInfo uuid (f # files) (acc, n)) =
      acc @ concat (fileContribution repoInfo uuid n f # css)"
    using step out by simp
  ultimately show ?case by blast
qed

lemma processFiles_partition:
  "\<exists>css. list_all2 (\<lambda>file cs. \<exists>m. cs = fileContribution repoInfo uuid m file) files css \<and>
         fst (processFiles repoInfo uuid n files) = concat css"
  using processFiles_loop_partition [of repoInfo uuid files "[]" n]
  by (simp add: processFiles_def)

lemma fileContribution_FILE:
  "(shouldSkipFile file \<longrightarrow> fileContribution repoInfo uuid m file = []) \<and>
   (\<not> shouldSkipFile file \<longrightarrow>
      (\<exists>c. filter (\<lambda>c. chunk_type c = FILE) (fileContribution repoInfo uuid m file) = [c] \<and>
           chunk_content c = content file))"
  using createFileChunks_FILE [of repoInfo uuid m "file"]
  by (auto simp: fileContribution_def createCodeChunks_no_FILE)

lemma fileContribution_SUMMARY:
  "if \<not> shouldSkipFile file \<and>
      (toLowerCase (basename (path file)) = ''readme.md'' \<or>
       toLowerCase (basename (path file)) = ''readme'' \<or>
       (includes_str (toLowerCase (basename (path file))) ''readme'' \<and>
        extname (path file) = ''.md''))
   then \<exists>c. filter (\<lambda>c. chunk_type c = SUMMARY) (fileContribution repoInfo uuid m file) = [c] \<and>
            chunk_content c = content file \<and> useCases c = [EXPLANATION]
   else filter (\<lambda>c. chunk_type c = SUMMARY) (fileContribution repoInfo uuid m file) = []"
  using createFileChunks_SUMMARY [of "file" repoInfo uuid m]
  by (auto simp: fileContribution_def createCodeChunks_no_SUMMARY split: if_splits)

text \<open>
  C1. The output of \<open>processFiles\<close> is the concatenation of one block of chunks per
  input file, in order. The block of a file for which \<open>shouldSkipFile\<close> holds is empty;
  the block of any other file contains exactly one chunk of type \<open>FILE\<close>, and the
  content of that chunk is the content of the file.
\<close>

theorem processFiles_file_chunk_per_file:
  "\<exists>css. list_all2 (\<lambda>file cs.
             (shouldSkipFile file \<longrightarrow> cs = []) \<and>
             (\<not> shouldSkipFile file \<longrightarrow>
                (\<exists>c. filter (\<lambda>c. chunk_type c = FILE) cs = [c] \<and>
                     chunk_content c = content file))) files css \<and>
         fst (processFiles repoInfo uuid n files) = concat css"
proof -
  obtain css where css: "list_all2 (\<lambda>file cs. \<exists>m. cs = fileContribution repoInfo uuid m file) files css"
    and out: "fst (processFiles repoInfo uuid n files) = concat css"
    using processFiles_partition by blast
  from css have "list_all2 (\<lambda>file cs.
             (shouldSkipFile file \<longrightarrow> cs = []) \<and>
             (\<not> shouldSkipFile file \<longrightarrow>
                (\<exists>c. filter (\<lambda>c. chunk_type c = FILE) cs = [c] \<and>
                     chunk_content c = content file))) files css"
    by (rule list_all2_mono) (use fileContribution_FILE in blast)
  with out show ?thesis by blast
qed

text \<open>
  C8. In the block of a file that is not skipped and whose lower-cased base name is
  \<open>readme.md\<close> or \<open>readme\<close>, or contains \<open>readme\<close> while the extension of the
  path is \<open>.md\<close>, there is exactly one chunk of type \<open>SUMMARY\<close>; its content is the
  content of the file and its use cases are exactly \<open>[EXPLANATION]\<close>. The block of
  every other file has no \<open>SUMMARY\<close> chunk.
\<close>

theorem processFiles_summary_chunk_per_file:
  "\<exists>css. list_all2 (\<lambda>file cs.
             if \<not> shouldSkipFile file \<and>
                (toLowerCase (basename (path file)) = ''readme.md'' \<or>
                 toLowerCase (basename (path file)) = ''readme'' \<or>
                 (includes_str (toLowerCase (basename (path file))) ''readme'' \<and>
                  extname (path file) = ''.md''))
             then \<exists>c. filter (\<lambda>c. chunk_type c = SUMMARY) cs = [c] \<and>
                      chunk_content c = content file \<and> useCases c = [EXPLANATION]
             else filter (\<lambda>c. chunk_type c = SUMMARY) cs = []) files css \<and>
         fst (processFiles repoInfo uuid n files) = concat css"
proof -
  obtain css where css: "list_all2 (\<lambda>file cs. \<exists>m. cs = fileContribution repoInfo uuid m file) files css"
    and out: "fst (processFiles repoInfo uuid n files) = concat css"
    using processFiles_partition by blast
  from css have "list_all2 (\<lambda>file cs.
             if \<not> shouldSkipFile file \<and>
                (toLowerCase (basename (path file)) = ''readme.md'' \<or>
                 toLowerCase (basename (path file)) = ''readme'' \<or>
                 (includes_str (toLowerCase (basename (path file))) ''readme'' \<and>
                  extname (path file) = ''.md''))
             then \<exists>c. filter (\<lambda>c. chunk_type c = SUMMARY) cs = [c] \<and>
                      chunk_content c = content file \<and> useCases c = [EXPLANATION]
             else filter (\<lambda>c. chunk_type c = SUMMARY) cs = []) files css"
  proof (rule list_all2_mono)
    fix f :: GitHubFile and cs :: "CodeChunk list"
    assume "\<exists>m. cs = fileContribution repoInfo uuid m f"
    then obtain m where cs: "cs = fileContribution repoInfo uuid m f" by blast
    show "if \<not> shouldSkipFile f \<and>
                (toLowerCase (basename (path f)) = ''readme.md'' \<or>
                 toLowerCase (basename (path f)) = ''readme'' \<or>
                 (includes_str (toLowerCase (basename (path f))) ''readme'' \<and>
                  extname (path f) = ''.md''))
             then \<exists>c. filter (\<lambda>c. chunk_type c = SUMMARY) cs = [c] \<and>
                      chunk_content c = content f \<and> useCases c = [EXPLANATION]
             else filter (\<lambda>c. chunk_type c = SUMMARY) cs = []"
      unfolding cs by (rule fileContribution_SUMMARY)
  qed
  with out show ?thesis by blast
qed

lemma list_all2_right_member:
  "list_all2 P xs ys \<Longrightarrow> y \<in> set ys \<Longrightarrow> \<exists>x \<in> set xs. P x y"
  by (induction rule: list_all2_induct) auto

lemma fileContribution_member:
  assumes "c \<in> set (fileContribution repoInfo uuid m file)"
  shows "((chunk_type c = FILE \<or> chunk_type c = SUMMARY) \<and>
          startLine (metadata c) = None \<and> endLine (metadata c) = None) \<or>
         symbolChunk_ok file (split_on (CHR 0x0A) (content file)) c"
  using assms createFileChunks_no_lines createCodeChunks_ok
  by (fastforce simp: fileContribution_def split: if_splits)

text \<open>
  C2. Every chunk in the output of \<open>processFiles\<close> of type \<open>FILE\<close> or \<open>SUMMARY\<close>
  has neither \<open>startLine\<close> nor \<open>endLine\<close>; every chunk of type \<open>CLASS\<close> or
  \<open>FUNCTION\<close> has both, with \<open>0 \<le> startLine \<le> endLine <\<close> the number of lines of
  an input file with the chunk's path, and its content is the lines
  \<open>[startLine, endLine]\<close> of that file joined with newlines.
\<close>

theorem processFiles_line_ranges:
  assumes "c \<in> set (fst (processFiles repoInfo uuid n files))"
  shows "(chunk_type c = FILE \<or> chunk_type c = SUMMARY \<longrightarrow>
            startLine (metadata c) = None \<and> endLine (metadata c) = None) \<and>
         (chunk_type c = CLASS \<or> chunk_type c = FUNCTION \<longrightarrow>
            (\<exists>file \<in> set files. \<exists>s e.
               filePath (metadata c) = path file \<and>
               startLine (metadata c) = Some s \<and> endLine (metadata c) = Some e \<and>
               0 \<le> s \<and> s \<le> e \<and> e < int (length (split_on (CHR 0x0A) (content file))) \<and>
               chunk_content c =
                 join [CHR 0x0A] (slice_lines s e (split_on (CHR 0x0A) (content file)))))"
proof -
  obtain css where css: "list_all2 (\<lambda>file cs. \<exists>m. cs = fileContribution repoInfo uuid m file) files css"
    and out: "fst (processFiles repoInfo uuid n files) = concat css"
    using processFiles_partition by blast
  from assms out obtain cs where cs: "cs \<in> set css" and c: "c \<in> set cs"
    by auto
  from list_all2_right_member [OF css cs]
  obtain f m where f: "f \<in> set files"
    and cs_eq: "cs = fileContribution repoInfo uuid m f"
    by blast
  from fileContribution_member [of c repoInfo uuid m f] c cs_eq
  consider (flat) "(chunk_type c = FILE \<or> chunk_type c = SUMMARY) \<and>
          startLine (metadata c) = None \<and> endLine (metadata c) = None"
    | (sym) "symbolChunk_ok f (split_on (CHR 0x0A) (content f)) c"
    by blast
  then show ?thesis
  proof cases
    case flat
    then show ?thesis by auto
  next
    case sym
    with f show ?thesis
      unfolding symbolChunk_ok_def by auto
  qed
qed

section \<open>Symbol detector regression\<close>

lemma exec_function_foo: "exec functionRe ''function foo() {'' = Some [(1, ''foo'')]"
  by code_simp
lemma exec_class_foo: "exec classRe ''function foo() {'' = None"
  by code_simp
lemma close_return: "\<not> test closeRe ''  return 1;''"
  by code_simp
lemma close_brace: "test closeRe ''}''"
  by code_simp
lemma exec_class_Bar: "exec classRe ''class Bar {'' = Some [(1, ''Bar'')]"
  by code_simp
lemma trim_brace: "trim ''}'' = ''}''"
  by code_simp
lemma exec_class_empty: "exec classRe [] = None"
  by code_simp
lemma exec_function_empty: "exec functionRe [] = None"
  by code_simp

lemma split_foo:
  "split_on (CHR 0x0A) (''function foo() {'' @ [CHR 0x0A] @ ''  return 1;'' @ [CHR 0x0A] @ ''}'')
   = [''function foo() {'', ''  return 1;'', ''}'']"
  by simp

lemma split_Bar:
  "split_on (CHR 0x0A) (''class Bar {'' @ [CHR 0x0A] @ ''}'' @ [CHR 0x0A])
   = [''class Bar {'', ''}'', []]"
  by simp

lemma createCodeChunks_foo:
  assumes "content file = ''function foo() {'' @ [CHR 0x0A] @ ''  return 1;'' @ [CHR 0x0A] @ ''}''"
  shows "\<exists>c. fst (createCodeChunks repoInfo uuid m file) = [c] \<and> chunk_type c = FUNCTION \<and>
             symbolName (metadata c) = Some ''foo'' \<and>
             startLine (metadata c) = Some 0 \<and> endLine (metadata c) = Some 2"
  unfolding createCodeChunks_def assms split_foo
  by (simp add: scanStep_def symbolChunk_def Let_def exec_function_foo exec_class_foo
        close_return close_brace)

lemma createCodeChunks_Bar:
  assumes "content file = ''class Bar {'' @ [CHR 0x0A] @ ''}'' @ [CHR 0x0A]"
  shows "\<exists>c. fst (createCodeChunks repoInfo uuid m file) = [c] \<and> chunk_type c = CLASS \<and>
             symbolName (metadata c) = Some ''Bar'' \<and>
             startLine (metadata c) = Some 0 \<and> endLine (metadata c) = Some 1"
  unfolding createCodeChunks_def assms split_Bar
  by (simp add: scanStep_def symbolChunk_def Let_def exec_class_Bar trim_brace
        exec_class_empty exec_function_empty)

lemma createFileChunks_no_symbols:
  "filter (\<lambda>c. chunk_type c = CLASS \<or> chunk_type c = FUNCTION)
     (fst (createFileChunks repoInfo uuid n file)) = []"
  by (simp add: createFileChunks_def Let_def)

lemma processFiles_single:
  "\<not> shouldSkipFile file \<Longrightarrow> isProgrammingFile file \<Longrightarrow>
   fst (processFiles repoInfo uuid n [file]) =
     fst (createFileChunks repoInfo uuid n file) @
     fst (createCodeChunks repoInfo uuid (snd (createFileChunks repoInfo uuid n file)) file)"
  by (simp add: processFiles_def Let_def split: prod.splits)

text \<open>
  C6. For a file that is not skipped and is a programming-language file: if its content is
  \<open>function foo() {\n  return 1;\n}\<close>, the output has exactly one symbol chunk, a
  \<open>FUNCTION\<close> named \<open>foo\<close> on lines 0 to 2; if its content is
  \<open>class Bar {\n}\n\<close>, it has exactly one symbol chunk, a \<open>CLASS\<close> named \<open>Bar\<close>
  on lines 0 to 1.
\<close>

theorem symbol_detector_regression:
  assumes "\<not> shouldSkipFile file" and "isProgrammingFile file"
  shows "(content file = ''function foo() {'' @ [CHR 0x0A] @ ''  return 1;'' @ [CHR 0x0A] @ ''}'' \<longrightarrow>
            (\<exists>c. filter (\<lambda>c. chunk_type c = CLASS \<or> chunk_type c = FUNCTION)
                   (fst (processFiles repoInfo uuid n [file])) = [c] \<and>
                 chunk_type c = FUNCTION \<and> symbolName (metadata c) = Some ''foo'' \<and>
                 startLine (metadata c) = Some 0 \<and> endLine (metadata c) = Some 2)) \<and>
         (content file = ''class Bar {'' @ [CHR 0x0A] @ ''}'' @ [CHR 0x0A] \<longrightarrow>
            (\<exists>c. filter (\<lambda>c. chunk_type c = CLASS \<or> chunk_type c = FUNCTION)
                   (fst (processFiles repoInfo uuid n [file])) = [c] \<and>
                 chunk_type c = CLASS \<and> symbolName (metadata c) = Some ''Bar'' \<and>
                 startLine (metadata c) = Some 0 \<and> endLine (metadata c) = Some 1))"
proof (intro conjI impI)
  assume k: "content file = ''function foo() {'' @ [CHR 0x0A] @ ''  return 1;'' @ [CHR 0x0A] @ ''}''"
  from createCodeChunks_foo [OF k, of repoInfo uuid "snd (createFileChunks repoInfo uuid n file)"]
  obtain c where "fst (createCodeChunks repoInfo uuid (snd (createFileChunks repoInfo uuid n file)) file) = [c]"
    and "chunk_type c = FUNCTION" "symbolName (metadata c) = Some ''foo''"
    "startLine (metadata c) = Some 0" "endLine (metadata c) = Some 2"
    by blast
  then show "\<exists>c. filter (\<lambda>c. chunk_type c = CLASS \<or> chunk_type c = FUNCTION)
                   (fst (processFiles repoInfo uuid n [file])) = [c] \<and>
                 chunk_type c = FUNCTION \<and> symbolName (metadata c) = Some ''foo'' \<and>
                 startLine (metadata c) = Some 0 \<and> endLine (metadata c) = Some 2"
    by (simp add: processFiles_single [OF assms] createFileChunks_no_symbols)
next
  assume k: "content file = ''class Bar {'' @ [CHR 0x0A] @ ''}'' @ [CHR 0x0A]"
  from createCodeChunks_Bar [OF k, of repoInfo uuid "snd (createFileChunks repoInfo uuid n file)"]
  obtain c where "fst (createCodeChunks repoInfo uuid (snd (createFileChunks repoInfo uuid n file)) file) = [c]"
    and "chunk_type c = CLASS" "symbolName (metadata c) = Some ''Bar''"
    "startLine (metadata c) = Some 0" "endLine (metadata c) = Some 1"
    by blast
  then show "\<exists>c. filter (\<lambda>c. chunk_type c = CLASS \<or> chunk_type c = FUNCTION)
                   (fst (processFiles repoInfo uuid n [file])) = [c] \<and>
                 chunk_type c = CLASS \<and> symbolName (metadata c) = Some ''Bar'' \<and>
                 startLine (metadata c) = Some 0 \<and> endLine (metadata c) = Some 1"
    by (simp add: processFiles_single [OF assms] createFileChunks_no_symbols)
qed

section \<open>The properties on the example inputs\<close>

lemma foo_js_facts:
  "\<not> shouldSkipFile foo_js" "isProgrammingFile foo_js"
  "content foo_js = ''function foo() {'' @ [CHR 0x0A] @ ''  return 1;'' @ [CHR 0x0A] @ ''}''"
  by code_simp+

lemma bar_ts_facts:
  "\<not> shouldSkipFile bar_ts" "isProgrammingFile bar_ts"
  "content bar_ts = ''class Bar {'' @ [CHR 0x0A] @ ''}'' @ [CHR 0x0A]"
  by code_simp+

lemma readme_md_facts:
  "\<not> shouldSkipFile readme_md" "toLowerCase (basename (path readme_md)) = ''readme.md''"
  by code_simp+

lemma blank_txt_facts: "shouldSkipFile blank_txt"
  by code_simp

lemma foo_js_not_readme:
  "\<not> includes_str (toLowerCase (basename (path foo_js))) ''readme''"
  "toLowerCase (basename (path foo_js)) \<noteq> ''readme.md''"
  "toLowerCase (basename (path foo_js)) \<noteq> ''readme''"
  by code_simp+

theorem processFiles_file_chunk_per_file_witness:
  "processFiles example_repo example_uuid 0 [blank_txt] = ([], 0) \<and>
   (\<exists>c. filter (\<lambda>c. chunk_type c = FILE)
          (fst (processFiles example_repo example_uuid 0 [foo_js])) = [c] \<and>
        chunk_content c = content foo_js)"
proof -
  have a: "processFiles example_repo example_uuid 0 [blank_txt] = ([], 0)"
    by (simp add: processFiles_def blank_txt_facts)
  have b: "\<exists>c. filter (\<lambda>c. chunk_type c = FILE)
          (fst (processFiles example_repo example_uuid 0 [foo_js])) = [c] \<and>
        chunk_content c = content foo_js"
    using processFiles_file_chunk_per_file [of "[foo_js]" example_repo example_uuid 0]
      foo_js_facts(1)
    by (auto simp: list_all2_Cons1)
  from a b show ?thesis by blast
qed

theorem processFiles_summary_chunk_per_file_witness:
  "(\<exists>c. filter (\<lambda>c. chunk_type c = SUMMARY)
          (fst (processFiles example_repo example_uuid 0 [readme_md])) = [c] \<and>
        chunk_content c = content readme_md \<and> useCases c = [EXPLANATION]) \<and>
   filter (\<lambda>c. chunk_type c = SUMMARY)
          (fst (processFiles example_repo example_uuid 0 [foo_js])) = []"
proof -
  have a: "\<exists>c. filter (\<lambda>c. chunk_type c = SUMMARY)
          (fst (processFiles example_repo example_uuid 0 [readme_md])) = [c] \<and>
        chunk_content c = content readme_md \<and> useCases c = [EXPLANATION]"
    using processFiles_summary_chunk_per_file [of "[readme_md]" example_repo example_uuid 0]
      readme_md_facts
    by (auto simp: list_all2_Cons1)
  have b: "filter (\<lambda>c. chunk_type c = SUMMARY)
          (fst (processFiles example_repo example_uuid 0 [foo_js])) = []"
    using processFiles_summary_chunk_per_file [of "[foo_js]" example_repo example_uuid 0]
      foo_js_not_readme
    by (auto simp: list_all2_Cons1)
  from a b show ?thesis by blast
qed

theorem symbol_detector_regression_witness:
  "(\<exists>c. filter (\<lambda>c. chunk_type c = CLASS \<or> chunk_type c = FUNCTION)
          (fst (processFiles example_repo example_uuid 0 [foo_js])) = [c] \<and>
        chunk_type c = FUNCTION \<and> symbolName (metadata c) = Some ''foo'' \<and>
        startLine (metadata c) = Some 0 \<and> endLine (metadata c) = Some 2) \<and>
   (\<exists>c. filter (\<lambda>c. chunk_type c = CLASS \<or> chunk_type c = FUNCTION)
          (fst (processFiles example_repo example_uuid 0 [bar_ts])) = [c] \<and>
        chunk_type c = CLASS \<and> symbolName (metadata c) = Some ''Bar'' \<and>
        startLine (metadata c) = Some 0 \<and> endLine (metadata c) = Some 1)"
  using symbol_detector_regression [OF foo_js_facts(1,2), of example_repo example_uuid 0]
    symbol_detector_regression [OF bar_ts_facts(1,2), of example_repo example_uuid 0]
    foo_js_facts(3) bar_ts_facts(3)
  by blast

theorem processFiles_line_ranges_witness:
  "\<exists>c \<in> set (fst (processFiles example_repo example_uuid 0 [foo_js])).
      chunk_type c = FUNCTION \<and>
      (\<exists>s e. startLine (metadata c) = Some s \<and> endLine (metadata c) = Some e \<and>
             0 \<le> s \<and> s \<le> e \<and> e < int (length (split_on (CHR 0x0A) (content foo_js))) \<and>
             chunk_content c =
               join [CHR 0x0A] (slice_lines s e (split_on (CHR 0x0A) (content foo_js))))"
proof -
  from createCodeChunks_foo [OF foo_js_facts(3), of example_repo example_uuid
      "snd (createFileChunks example_repo example_uuid 0 foo_js)"]
  obtain c where cc: "fst (createCodeChunks example_repo example_uuid
      (snd (createFileChunks example_repo example_uuid 0 foo_js)) foo_js) = [c]"
    and ty: "chunk_type c = FUNCTION"
    by blast
  have mem: "c \<in> set (fst (processFiles example_repo example_uuid 0 [foo_js]))"
    by (simp add: processFiles_single [OF foo_js_facts(1,2)] cc)
  from processFiles_line_ranges [OF mem] ty mem show ?thesis
    by auto
qed

section \<open>Repository references\<close>

text \<open>
  C9. The constructor derives owner and name from the last two segments of the URL, and
  removes \<open>.git\<close> from the name with \<open>replace\<close>, which removes the first occurrence
  wherever it is: for the repository \<open>octocat.github.io\<close> the name that results is
  \<open>octocathub.io\<close>, although the name has no trailing \<open>.git\<close>.
\<close>

theorem GitHubRepository_name_replace_first_occurrence:
  "GitHubRepository_repoInfo
     \<lparr>url = ''https://github.com/octocat/octocat.github.io'', owner = [], name = [],
      branch = None\<rparr> =
     \<lparr>url = ''https://github.com/octocat/octocat.github.io'', owner = ''octocat'',
      name = ''octocathub.io'', branch = None\<rparr>"
  by code_simp

lemma GitHubRepository_plain:
  "GitHubRepository_repoInfo
     \<lparr>url = ''https://github.com/octocat/hello.git'', owner = [], name = [],
      branch = None\<rparr> =
     \<lparr>url = ''https://github.com/octocat/hello.git'', owner = ''octocat'',
      name = ''hello'', branch = None\<rparr>"
  by code_simp


section \<open>The file filter\<close>

lemma exec_from_Nil:
  "exec_from re p [] =
     (case rmatch re (p, [], []) of [] \<Rightarrow> None | st # _ \<Rightarrow> Some (snd (snd st)))"
  by (subst exec_from.simps) (simp split: list.splits)

lemma exec_from_Cons:
  "exec_from re p (x # t) =
     (case rmatch re (p, x # t, []) of [] \<Rightarrow> exec_from re (Suc p) t
      | st # _ \<Rightarrow> Some (snd (snd st)))"
  by (subst exec_from.simps) (simp split: list.splits)

lemma exec_from_Str: "exec_from (Str w) p s \<noteq> None \<longleftrightarrow> sublist w s"
proof (induction s arbitrary: p)
  case Nil
  show ?case by (simp add: exec_from_Nil)
next
  case (Cons x t)
  show ?case
    using Cons.IH [of "Suc p"]
    by (simp add: exec_from_Cons sublist_Cons_right)
qed

lemma rmatch_Str_Eol:
  "rmatch (Seq (Str w) Eol) (p, s, k) = (if w = s then [(p + length w, [], k)] else [])"
  by (auto simp: prefix_def)

lemma exec_from_Str_Eol: "exec_from (Seq (Str w) Eol) p s \<noteq> None \<longleftrightarrow> suffix w s"
proof (induction s arbitrary: p)
  case Nil
  show ?case by (simp add: exec_from_Nil rmatch_Str_Eol del: rmatch.simps)
next
  case (Cons x t)
  show ?case
    using Cons.IH [of "Suc p"]
    by (simp add: exec_from_Cons rmatch_Str_Eol suffix_Cons del: rmatch.simps)
qed

lemma test_Str: "test (Str w) s \<longleftrightarrow> includes_str s w"
  using exec_from_Str [of w 0 s]
  by (simp add: test_def exec_def includes_str_def)

lemma test_Str_Eol: "test (Seq (Str w) Eol) s \<longleftrightarrow> endsWith s w"
  using exec_from_Str_Eol [of w 0 s]
  by (simp add: test_def exec_def endsWith_def)

lemma trim_empty_iff: "trim s = [] \<longleftrightarrow> (\<forall>c \<in> set s. isSpace c)"
proof
  assume "trim s = []"
  then have "dropWhile isSpace (rev (dropWhile isSpace s)) = []"
    by (simp add: trim_def)
  then have a: "\<forall>c \<in> set (dropWhile isSpace s). isSpace c"
    by (simp only: dropWhile_eq_Nil_conv set_rev)
  show "\<forall>c \<in> set s. isSpace c"
  proof (cases "dropWhile isSpace s")
    case Nil
    then show ?thesis by (simp only: dropWhile_eq_Nil_conv)
  next
    case (Cons y ys)
    then have "\<not> isSpace y"
      using hd_dropWhile [of isSpace s] by simp
    with a Cons show ?thesis by simp
  qed
next
  assume "\<forall>c \<in> set s. isSpace c"
  then have h: "dropWhile isSpace s = []"
    by (simp only: dropWhile_eq_Nil_conv)
  show "trim s = []"
    by (simp only: trim_def h rev.simps dropWhile.simps)
qed

lemma isLikelyBinary_iff:
  "isLikelyBinary cont \<longleftrightarrow>
     CHR 0x00 \<in> set cont \<or> length cont < 10 * length (filter isNonPrintable cont)"
  by (auto simp: isLikelyBinary_def Let_def)

lemma skipPatterns_iff:
  "list_ex (\<lambda>pattern. test pattern p) skipPatterns \<longleftrightarrow>
     includes_str p ''.git/'' \<or> includes_str p ''node_modules/'' \<or>
     endsWith p ''.DS_Store'' \<or> endsWith p ''.env'' \<or>
     endsWith p ''.log'' \<or> endsWith p ''.lock'' \<or>
     endsWith p ''package-lock.json'' \<or> endsWith p ''yarn.lock'' \<or>
     endsWith p ''pnpm-lock.yaml''"
  by (simp only: skipPatterns_def list_ex_Nil_iff list_ex_Cons_iff test_Str test_Str_Eol simp_thms)


text \<open>
  C3. \<open>shouldSkipFile\<close> holds exactly when the content is empty or only whitespace, or
  the size exceeds 2,097,152, or the content has a null byte or more than a tenth of its
  characters are in \<open>[\x00-\x08\x0B\x0C\x0E-\x1F\x7F]\<close>, or the path contains \<open>.git/\<close>
  or \<open>node_modules/\<close>, or ends with \<open>.DS_Store\<close>, \<open>.env\<close>, \<open>.log\<close>,
  \<open>.lock\<close>, \<open>package-lock.json\<close>, \<open>yarn.lock\<close> or \<open>pnpm-lock.yaml\<close>
  (compared character by character). In particular a file whose content has a null byte
  is skipped.
\<close>

theorem shouldSkipFile_iff:
  "(shouldSkipFile file \<longleftrightarrow>
      (\<forall>c \<in> set (content file). isSpace c) \<or>
      size_bytes file > 2097152 \<or>
      (CHR 0x00 \<in> set (content file) \<or>
       length (content file) < 10 * length (filter isNonPrintable (content file))) \<or>
      (includes_str (path file) ''.git/'' \<or> includes_str (path file) ''node_modules/'' \<or>
       endsWith (path file) ''.DS_Store'' \<or> endsWith (path file) ''.env'' \<or>
       endsWith (path file) ''.log'' \<or> endsWith (path file) ''.lock'' \<or>
       endsWith (path file) ''package-lock.json'' \<or> endsWith (path file) ''yarn.lock'' \<or>
       endsWith (path file) ''pnpm-lock.yaml'')) \<and>
   (CHR 0x00 \<in> set (content file) \<longrightarrow> shouldSkipFile file)"
proof -
  have "shouldSkipFile file \<longleftrightarrow>
      trim (content file) = [] \<or> size_bytes file > 2097152 \<or>
      isLikelyBinary (content file) \<or>
      list_ex (\<lambda>pattern. test pattern (path file)) skipPatterns"
    by (simp add: shouldSkipFile_def)
  then show ?thesis
    by (simp only: trim_empty_iff isLikelyBinary_iff skipPatterns_iff) blast
qed

theorem shouldSkipFile_iff_witness:
  "shouldSkipFile \<lparr>path = ''logo.png'', content = [CHR ''P'', CHR 0x00, CHR ''G''],
                    language = None, size_bytes = 3\<rparr> \<and>
   shouldSkipFile \<lparr>path = ''web/yarn.lock'', content = ''x'', language = None,
                    size_bytes = 1\<rparr> \<and>
   \<not> shouldSkipFile foo_js"
proof -
  have a: "endsWith ''web/yarn.lock'' ''.lock''" by code_simp
  have b: "\<not> ((\<forall>c \<in> set (content foo_js). isSpace c) \<or>
      size_bytes foo_js > 2097152 \<or>
      (CHR 0x00 \<in> set (content foo_js) \<or>
       length (content foo_js) < 10 * length (filter isNonPrintable (content foo_js))) \<or>
      (includes_str (path foo_js) ''.git/'' \<or> includes_str (path foo_js) ''node_modules/'' \<or>
       endsWith (path foo_js) ''.DS_Store'' \<or> endsWith (path foo_js) ''.env'' \<or>
       endsWith (path foo_js) ''.log'' \<or> endsWith (path foo_js) ''.lock'' \<or>
       endsWith (path foo_js) ''package-lock.json'' \<or> endsWith (path foo_js) ''yarn.lock'' \<or>
       endsWith (path foo_js) ''pnpm-lock.yaml''))"
    by code_simp
  have c: "shouldSkipFile \<lparr>path = ''logo.png'', content = [CHR ''P'', CHR 0x00, CHR ''G''],
                    language = None, size_bytes = 3\<rparr>"
    using shouldSkipFile_iff [of "\<lparr>path = ''logo.png'', content = [CHR ''P'', CHR 0x00, CHR ''G''],
                    language = None, size_bytes = 3\<rparr>"]
    by simp
  have d: "shouldSkipFile \<lparr>path = ''web/yarn.lock'', content = ''x'', language = None,
                    size_bytes = 1\<rparr>"
    using a shouldSkipFile_iff [of "\<lparr>path = ''web/yarn.lock'', content = ''x'', language = None,
                    size_bytes = 1\<rparr>"]
    by simp
  have e: "\<not> shouldSkipFile foo_js"
    using b shouldSkipFile_iff [of foo_js] by blast
  from c d e show ?thesis by blast
qed

section \<open>A region still open at the end of the file\<close>

lemma rmatch_Star_Cls_Nil: "rmatch (Star (Cls f)) (p, [], k) = [(p, [], k)]"
  by (subst rmatch.simps(9)) simp

lemma rmatch_Star_Cls_Cons:
  "rmatch (Star (Cls f)) (p, x # t, k) =
     (if f x then rmatch (Star (Cls f)) (Suc p, t, k) else []) @ [(p, x # t, k)]"
  by (subst rmatch.simps(9)) simp

lemma rmatch_Star_Cls_sound:
  "(p', s', k') \<in> set (rmatch (Star (Cls f)) (p, s, k)) \<Longrightarrow>
   k' = k \<and> (\<exists>a. s = a @ s' \<and> (\<forall>c \<in> set a. f c) \<and> p' = p + length a)"
proof (induction s arbitrary: p)
  case Nil
  then show ?case by (simp add: rmatch_Star_Cls_Nil)
next
  case (Cons x t)
  show ?case
  proof (cases "f x \<and> (p', s', k') \<in> set (rmatch (Star (Cls f)) (Suc p, t, k))")
    case True
    then have mem: "(p', s', k') \<in> set (rmatch (Star (Cls f)) (Suc p, t, k))" and fx: "f x"
      by blast+
    from Cons.IH [OF mem] obtain a where k: "k' = k" and a: "t = a @ s'" "\<forall>c \<in> set a. f c"
      "p' = Suc p + length a"
      by blast
    from a fx have "x # t = (x # a) @ s' \<and> (\<forall>c \<in> set (x # a). f c) \<and> p' = p + length (x # a)"
      by simp
    with k show ?thesis by blast
  next
    case False
    with Cons.prems have "(p', s', k') = (p, x # t, k)"
      by (auto simp: rmatch_Star_Cls_Cons split: if_splits)
    then show ?thesis by simp
  qed
qed

lemma rmatch_closeRe_sound:
  assumes "st \<in> set (rmatch closeRe (p, s, k))"
  shows "p = 0 \<and> (\<exists>a b. s = a @ CHR ''}'' # b \<and> (\<forall>c \<in> set a. isSpace c) \<and> (\<forall>c \<in> set b. isSpace c))"
proof -
  from assms obtain st1 st2 st3 st4 where
    s1: "st1 \<in> set (rmatch Bol (p, s, k))" and
    s2: "st2 \<in> set (rmatch (Star (Cls isSpace)) st1)" and
    s3: "st3 \<in> set (rmatch (Chr CHR ''}'') st2)" and
    s4: "st4 \<in> set (rmatch (Star (Cls isSpace)) st3)" and
    s5: "st \<in> set (rmatch Eol st4)"
    unfolding closeRe_def by auto
  from s1 have p0: "p = 0" and st1: "st1 = (p, s, k)"
    by (auto split: if_splits)
  obtain p2 t2 k2 where st2: "st2 = (p2, t2, k2)" by (cases st2) auto
  from rmatch_Star_Cls_sound [of p2 t2 k2 isSpace p s k] s2 st1 st2
  obtain a where a: "s = a @ t2" "\<forall>c \<in> set a. isSpace c"
    by blast
  obtain p3 t3 k3 where st3: "st3 = (p3, t3, k3)" by (cases st3) auto
  from s3 st2 st3 have t2: "t2 = CHR ''}'' # t3"
    by (auto split: list.splits if_splits)
  obtain p4 t4 k4 where st4: "st4 = (p4, t4, k4)" by (cases st4) auto
  from rmatch_Star_Cls_sound [of p4 t4 k4 isSpace p3 t3 k3] s4 st3 st4
  obtain b where b: "t3 = b @ t4" "\<forall>c \<in> set b. isSpace c"
    by blast
  from s5 st4 have "t4 = []"
    by (auto split: if_splits)
  with a b t2 p0 show ?thesis by auto
qed

lemma exec_from_Some_rmatch:
  "exec_from re p s = Some m \<Longrightarrow>
   \<exists>q t st. st \<in> set (rmatch re (q, t, [])) \<and> m = snd (snd st) \<and> (q = p \<and> t = s \<or> p < q)"
proof (induction s arbitrary: p)
  case Nil
  show ?case
  proof (cases "rmatch re (p, [], [])")
    case Nil
    with Nil.prems show ?thesis by (simp add: exec_from_Nil)
  next
    case (Cons st sts)
    with Nil.prems have "m = snd (snd st)"
      by (simp add: exec_from_Nil)
    moreover from Cons have "st \<in> set (rmatch re (p, [], []))" by simp
    ultimately show ?thesis by blast
  qed
next
  case (Cons x t)
  show ?case
  proof (cases "rmatch re (p, x # t, [])")
    case Nil
    with Cons.prems have "exec_from re (Suc p) t = Some m"
      by (simp add: exec_from_Cons)
    from Cons.IH [OF this]
    obtain q t' st where st: "st \<in> set (rmatch re (q, t', []))" "m = snd (snd st)"
      and q: "q = Suc p \<and> t' = t \<or> Suc p < q"
      by blast
    from q have "p < q" by auto
    with st show ?thesis by blast
  next
    case (Cons st sts)
    with Cons.prems have "m = snd (snd st)"
      by (simp add: exec_from_Cons)
    moreover from Cons have "st \<in> set (rmatch re (p, x # t, []))" by simp
    ultimately show ?thesis by blast
  qed
qed

lemma isSpace_brace: "\<not> isSpace CHR ''}''"
  by (simp add: isSpace_def)

lemma trim_lone_brace:
  assumes "\<forall>c \<in> set a. isSpace c" and "\<forall>c \<in> set b. isSpace c"
  shows "trim (a @ CHR ''}'' # b) = ''}''"
proof -
  have "dropWhile isSpace (a @ CHR ''}'' # b) = dropWhile isSpace (CHR ''}'' # b)"
    by (rule dropWhile_append2) (use assms(1) in blast)
  then have 1: "dropWhile isSpace (a @ CHR ''}'' # b) = CHR ''}'' # b"
    using isSpace_brace by simp
  have "dropWhile isSpace (rev b @ [CHR ''}'']) = dropWhile isSpace [CHR ''}'']"
    by (rule dropWhile_append2) (use assms(2) in simp)
  then have 2: "dropWhile isSpace (rev b @ [CHR ''}'']) = [CHR ''}'']"
    using isSpace_brace by simp
  have "trim (a @ CHR ''}'' # b) = rev (dropWhile isSpace (rev (CHR ''}'' # b)))"
    by (simp only: trim_def 1)
  also have "\<dots> = rev (dropWhile isSpace (rev b @ [CHR ''}'']))"
    by simp
  also have "\<dots> = ''}''"
    by (simp only: 2 rev.simps append_Nil)
  finally show ?thesis .
qed

lemma test_closeRe_trim: "test closeRe s \<Longrightarrow> trim s = ''}''"
proof -
  assume "test closeRe s"
  then obtain m where "exec_from closeRe 0 s = Some m"
    by (auto simp: test_def exec_def)
  from exec_from_Some_rmatch [OF this]
  obtain q t st where st: "st \<in> set (rmatch closeRe (q, t, []))" and pos: "q = 0 \<and> t = s \<or> 0 < q"
    by blast
  from rmatch_closeRe_sound [OF st] pos
  obtain a b where "s = a @ CHR ''}'' # b" "\<forall>c \<in> set a. isSpace c" "\<forall>c \<in> set b. isSpace c"
    by auto
  then show ?thesis
    by (simp only: trim_lone_brace)
qed


lemma rmatch_caps_mono:
  "st' \<in> set (rmatch r st) \<Longrightarrow> n \<in> dom (map_of (snd (snd st))) \<Longrightarrow>
   n \<in> dom (map_of (snd (snd st')))"
proof (induction r st arbitrary: st' rule: rmatch.induct)
  case (6 a b st)
  from "6.prems"(1) obtain x where x: "x \<in> set (rmatch a st)" and st': "st' \<in> set (rmatch b x)"
    by auto
  from "6.IH"(1) [OF x "6.prems"(2)] have "n \<in> dom (map_of (snd (snd x)))" .
  from "6.IH"(2) [OF x st' this] show ?case .
next
  case (9 a p s k)
  from "9.prems"(1) consider (stop) "st' = (p, s, k)"
    | (iter) x where "x \<in> set (filter (\<lambda>st'. length (fst (snd st')) < length s) (rmatch a (p, s, k)))"
        "st' \<in> set (rmatch (Star a) x)"
    by (subst (asm) rmatch.simps(9)) auto
  then show ?case
  proof cases
    case stop
    with "9.prems"(2) show ?thesis by simp
  next
    case iter
    from iter(1) have "x \<in> set (rmatch a (p, s, k))" by simp
    from "9.IH"(1) [OF this "9.prems"(2)] have "n \<in> dom (map_of (snd (snd x)))" .
    from "9.IH"(2) [OF iter(1) iter(2) this] show ?thesis .
  qed
qed (auto split: list.splits if_splits simp: domIff)

lemma rmatch_Grp_defined:
  "st' \<in> set (rmatch (Grp n a) st) \<Longrightarrow> n \<in> dom (map_of (snd (snd st')))"
  by (cases st) auto

lemma rmatch_Seq_mem:
  "st' \<in> set (rmatch (Seq a b) st) \<longleftrightarrow> (\<exists>x \<in> set (rmatch a st). st' \<in> set (rmatch b x))"
  by simp

lemma rmatch_group_after_two:
  assumes "st' \<in> set (rmatch (Seq a (Seq b (Seq (Grp n c) d))) st)"
  shows "n \<in> dom (map_of (snd (snd st')))"
proof -
  from assms obtain x1 where "st' \<in> set (rmatch (Seq b (Seq (Grp n c) d)) x1)"
    unfolding rmatch_Seq_mem [of st' a] by blast
  then obtain x2 where "st' \<in> set (rmatch (Seq (Grp n c) d) x2)"
    unfolding rmatch_Seq_mem [of st' b] by blast
  then obtain x3 where x3: "x3 \<in> set (rmatch (Grp n c) x2)" and st': "st' \<in> set (rmatch d x3)"
    unfolding rmatch_Seq_mem [of st' "Grp n c"] by blast
  from rmatch_caps_mono [OF st' rmatch_Grp_defined [OF x3]] show ?thesis .
qed

lemma exec_classRe_name: "exec classRe line = Some m \<Longrightarrow> \<exists>nm. map_of m 1 = Some nm"
proof -
  assume "exec classRe line = Some m"
  then have "exec_from classRe 0 line = Some m" by (simp add: exec_def)
  from exec_from_Some_rmatch [OF this]
  obtain q t st where st: "st \<in> set (rmatch classRe (q, t, []))" and m: "m = snd (snd st)"
    by blast
  from st have "1 \<in> dom (map_of (snd (snd st)))"
    unfolding classRe_def by (rule rmatch_group_after_two)
  with m show ?thesis by auto
qed

lemma exec_functionRe_name: "exec functionRe line = Some m \<Longrightarrow> \<exists>nm. map_of m 1 = Some nm"
proof -
  assume "exec functionRe line = Some m"
  then have "exec_from functionRe 0 line = Some m" by (simp add: exec_def)
  from exec_from_Some_rmatch [OF this]
  obtain q t st where st: "st \<in> set (rmatch functionRe (q, t, []))" and m: "m = snd (snd st)"
    by blast
  from st have "1 \<in> dom (map_of (snd (snd st)))"
    unfolding functionRe_def by (rule rmatch_group_after_two)
  with m show ?thesis by auto
qed

lemma scanLines_append:
  "scanLines repoInfo uuid f i (xs @ ys) st =
     (case scanLines repoInfo uuid f i xs st of
        Inl e \<Rightarrow> Inl e
      | Inr st' \<Rightarrow> scanLines repoInfo uuid f (i + int (length xs)) ys st')"
proof (induction xs arbitrary: i st)
  case Nil
  show ?case by simp
next
  case (Cons x xs)
  show ?case
    by (cases "scanStep repoInfo uuid f i x st")
       (simp_all add: Cons.IH ac_simps split: sum.splits)
qed

lemma scanStep_open:
  assumes "exec classRe line \<noteq> None \<or> exec functionRe line \<noteq> None"
  shows "\<exists>nm. scanStep repoInfo uuid f i line (chunks, None, n) =
           Inr (chunks,
                Some \<lparr>sym_name = Some nm, sym_content = [line], sym_startLine = i,
                      sym_endLine = - 1, isClass = (exec classRe line \<noteq> None)\<rparr>, n)"
proof (cases "exec classRe line")
  case (Some m)
  from exec_classRe_name [OF Some] obtain nm where "map_of m 1 = Some nm" by blast
  with Some show ?thesis
    by (simp add: scanStep_def Let_def)
next
  case None
  with assms obtain m where m: "exec functionRe line = Some m" by auto
  from exec_functionRe_name [OF m] obtain nm where "map_of m 1 = Some nm" by blast
  with None m show ?thesis
    by (simp add: scanStep_def Let_def)
qed

lemma scanStep_keep_open:
  assumes "trim line \<noteq> ''}''"
  shows "scanStep repoInfo uuid f i line (chunks, Some cf, n) =
           Inr (chunks, Some (cf\<lparr>sym_content := sym_content cf @ [line]\<rparr>), n)"
proof -
  from assms have "\<not> test closeRe line"
    using test_closeRe_trim by blast
  with assms show ?thesis
    by (simp add: scanStep_def Let_def)
qed

lemma scanLines_keep_open:
  "\<forall>l \<in> set rest. trim l \<noteq> ''}'' \<Longrightarrow>
   scanLines repoInfo uuid f i rest (chunks, Some cf, n) =
     Inr (chunks, Some (cf\<lparr>sym_content := sym_content cf @ rest\<rparr>), n)"
proof (induction rest arbitrary: i cf)
  case Nil
  show ?case by simp
next
  case (Cons l rest)
  from Cons.prems have l: "trim l \<noteq> ''}''" and rest: "\<forall>l \<in> set rest. trim l \<noteq> ''}''"
    by simp_all
  show ?case
    by (simp add: scanStep_keep_open [OF l] Cons.IH [OF rest])
qed

lemma createCodeChunks_open_at_eof:
  assumes lines: "split_on (CHR 0x0A) (content f) = pre @ line # rest"
    and before: "scanLines repoInfo uuid f 0 pre ([], None, n) = Inr (chunks, None, m)"
    and opens: "exec classRe line \<noteq> None \<or> exec functionRe line \<noteq> None"
    and no_close: "\<forall>l \<in> set rest. trim l \<noteq> ''}''"
  shows "\<exists>c. fst (createCodeChunks repoInfo uuid n f) = chunks @ [c] \<and>
             chunk_type c = (if exec classRe line \<noteq> None then CLASS else FUNCTION) \<and>
             startLine (metadata c) = Some (int (length pre)) \<and>
             endLine (metadata c) = Some (int (length (split_on (CHR 0x0A) (content f))) - 1) \<and>
             chunk_content c = join [CHR 0x0A] (line # rest)"
proof -
  from scanStep_open [OF opens, of repoInfo uuid f "int (length pre)" chunks m]
  obtain nm where step: "scanStep repoInfo uuid f (int (length pre)) line (chunks, None, m) =
           Inr (chunks,
                Some \<lparr>sym_name = Some nm, sym_content = [line], sym_startLine = int (length pre),
                      sym_endLine = - 1, isClass = (exec classRe line \<noteq> None)\<rparr>, m)"
    by blast
  have "scanLines repoInfo uuid f 0 (pre @ line # rest) ([], None, n) =
          Inr (chunks,
               Some \<lparr>sym_name = Some nm, sym_content = line # rest,
                     sym_startLine = int (length pre), sym_endLine = - 1,
                     isClass = (exec classRe line \<noteq> None)\<rparr>, m)"
    by (simp add: scanLines_append before step scanLines_keep_open [OF no_close])
  then show ?thesis
    by (simp add: createCodeChunks_def lines symbolChunk_def Let_def)
qed

text \<open>
  C7. Let a file be not skipped and a programming-language file. If no region is open when
  the scan reaches a line, that line matches the class or the function pattern, and no
  later line is a lone closing brace, then the last chunk emitted for the file is that
  region: it starts at that line, its \<open>endLine\<close> is the number of lines minus one, and
  its content is all lines from the opening line to the end of the file.
\<close>

theorem open_region_closed_at_eof:
  assumes "\<not> shouldSkipFile f" and "isProgrammingFile f"
    and "split_on (CHR 0x0A) (content f) = pre @ line # rest"
    and "scanLines repoInfo uuid f 0 pre
           ([], None, snd (createFileChunks repoInfo uuid n f)) = Inr (chunks, None, m)"
    and "exec classRe line \<noteq> None \<or> exec functionRe line \<noteq> None"
    and "\<forall>l \<in> set rest. trim l \<noteq> ''}''"
  shows "\<exists>c. fst (processFiles repoInfo uuid n [f]) =
               fst (createFileChunks repoInfo uuid n f) @ chunks @ [c] \<and>
             chunk_type c = (if exec classRe line \<noteq> None then CLASS else FUNCTION) \<and>
             startLine (metadata c) = Some (int (length pre)) \<and>
             endLine (metadata c) = Some (int (length (split_on (CHR 0x0A) (content f))) - 1) \<and>
             chunk_content c = join [CHR 0x0A] (line # rest)"
  using createCodeChunks_open_at_eof [OF assms(3-6)]
  by (simp add: processFiles_single [OF assms(1,2)])

theorem open_region_closed_at_eof_witness:
  "\<exists>c. fst (processFiles example_repo example_uuid 0 [truncated_js]) =
          fst (createFileChunks example_repo example_uuid 0 truncated_js) @ [c] \<and>
        chunk_type c = FUNCTION \<and>
        startLine (metadata c) = Some 0 \<and> endLine (metadata c) = Some 1 \<and>
        chunk_content c = content truncated_js"
proof -
  have h1: "\<not> shouldSkipFile truncated_js" by code_simp
  have h2: "isProgrammingFile truncated_js" by code_simp
  have h3: "split_on (CHR 0x0A) (content truncated_js) =
              [] @ ''function foo() {'' # [''  return 1;'']"
    by code_simp
  have h4: "scanLines example_repo example_uuid truncated_js 0 []
              ([], None, snd (createFileChunks example_repo example_uuid 0 truncated_js)) =
            Inr ([], None, snd (createFileChunks example_repo example_uuid 0 truncated_js))"
    by simp
  have h5: "exec classRe ''function foo() {'' \<noteq> None \<or>
            exec functionRe ''function foo() {'' \<noteq> None"
    by (simp add: exec_function_foo)
  have h6: "\<forall>l \<in> set [''  return 1;'']. trim l \<noteq> ''}''"
    by code_simp
  have h7: "join [CHR 0x0A] [''function foo() {'', ''  return 1;''] = content truncated_js"
    by code_simp
  from open_region_closed_at_eof [OF h1 h2 h3 h4 h5 h6] h7 show ?thesis
    by (simp add: exec_class_foo h3)
qed

end
